theory Spec2Isabelle
  imports Main "HOL-Library.Stream"
begin

section \<open>VirtualServerClient: condition vocabulary and matcher\<close>

text \<open>
  The model follows \<^verbatim>\<open>src/coreweave/virtual_server.py\<close>. A condition reported by the
  backend is a Python dict from field names to strings; it is modelled as a map, so that
  the membership tests of the source (\<^verbatim>\<open>'reason' in condition\<close>) stay visible.
\<close>

type_synonym condition = "string \<rightharpoonup> string"

text \<open>
  The class attribute \<^verbatim>\<open>EXPECTED_CONDITIONS\<close> (lines 16-32): a dict from the outcome
  name to the dict of the three expected fields, in the order of the source.
\<close>

definition EXPECTED_CONDITIONS :: "string \<rightharpoonup> condition" where
  "EXPECTED_CONDITIONS =
     map_of
       [(''Stopped'',
           map_of [(''reason'', ''VirtualServerStopped''), (''status'', ''False''), (''type'', ''Ready'')]),
        (''Ready'',
           map_of [(''reason'', ''VirtualServerReady''), (''status'', ''True''), (''type'', ''Ready'')]),
        (''Terminating'',
           map_of [(''reason'', ''Terminating''), (''status'', ''False''), (''type'', ''Ready'')])]"

text \<open>
  \<^verbatim>\<open>match_condition\<close> (lines 74-82). The result is the requested name or Python's
  \<^verbatim>\<open>None\<close>. A key of the condition is compared only after the test that it is present.
\<close>

definition match_condition :: "condition \<Rightarrow> string \<Rightarrow> string option" where
  "match_condition condition expected_status =
     (case EXPECTED_CONDITIONS expected_status of
        None \<Rightarrow> None
      | Some c \<Rightarrow>
          if condition ''reason'' \<noteq> None \<and> c ''reason'' = condition ''reason'' \<and>
             condition ''status'' \<noteq> None \<and> c ''status'' = condition ''status'' \<and>
             condition ''type'' \<noteq> None \<and> c ''type'' = condition ''type''
          then Some expected_status
          else None)"

section \<open>The watch: events, the Watch object, errors\<close>

text \<open>
  \<^verbatim>\<open>status\<close> is the dict \<^verbatim>\<open>event['object'].get('status', {})\<close>. The source reads two
  of its keys: \<^verbatim>\<open>'conditions'\<close> (a list of conditions) and \<^verbatim>\<open>'network'\<close> (a dict holding
  \<^verbatim>\<open>'externalIP'\<close>). A key that is absent from the dict is \<open>None\<close> here.
\<close>

record status =
  conditions :: "condition list option"
  network :: "(string \<rightharpoonup> string) option"

text \<open>
  An event of the stream: \<^verbatim>\<open>event['type']\<close> and the \<^verbatim>\<open>'status'\<close> entry of
  \<^verbatim>\<open>event['object']\<close>, which may be absent.
\<close>

record event =
  etype :: string
  obj_status :: "status option"

definition empty_status :: status where
  "empty_status = \<lparr>conditions = None, network = None\<rparr>"

definition status_of :: "event \<Rightarrow> status" where
  "status_of ev = (case obj_status ev of None \<Rightarrow> empty_status | Some s \<Rightarrow> s)"

text \<open>
  The exceptions that the modelled code can raise: \<^verbatim>\<open>TypeError\<close> and \<^verbatim>\<open>ValueError\<close>
  are raised by \<^verbatim>\<open>create\<close>, \<^verbatim>\<open>KeyError\<close> by indexing a dict at a missing key,
  \<^verbatim>\<open>IndexError\<close> by \<^verbatim>\<open>status['conditions'][0]\<close> on an empty list, and
  \<^verbatim>\<open>MarkupError\<close> by the \<^verbatim>\<open>print\<close> of the rich library on text that is not
  well-formed console markup.
\<close>

datatype error = TypeError | ValueError | KeyError string | IndexError | MarkupError

text \<open>
  \<^verbatim>\<open>print\<close> is \<^verbatim>\<open>rich.print\<close> when that library can be imported (lines 5-8) and the
  builtin otherwise; \<^verbatim>\<open>progress.add_task\<close> belongs to the caller's progress object. Both
  are outside the repository and are parameters of the model: a function from the text
  to the exception it raises, \<open>None\<close> when the text is printed.
\<close>

type_synonym console = "string \<Rightarrow> error option"

text \<open>The four messages of \<^verbatim>\<open>ready\<close> (lines 127 and 130, 108, 118, 123), as formatted.\<close>

definition waiting_msg :: "string \<Rightarrow> string \<Rightarrow> string \<Rightarrow> string" where
  "waiting_msg namespace name expected_status =
     ''Waiting for VirtualServer '' @ name @ '' in namespace '' @ namespace @
     '' to be '' @ expected_status @ ''...''"

definition deleted_msg :: "string \<Rightarrow> string" where
  "deleted_msg name = ''[bold red]'' @ name @ ''[/bold red] has been [red]deleted[/red].''"

definition ready_msg :: "string \<Rightarrow> string \<Rightarrow> string" where
  "ready_msg name ip =
     ''[green]'' @ name @ '' is ready![/green] External IP: [red]'' @ ip @ ''[/red]''"

definition but_is_msg :: "string \<Rightarrow> string \<Rightarrow> string" where
  "but_is_msg name ready_condition =
     ''[red]'' @ name @ ''[/red] but is [red]'' @ ready_condition @ ''[/red].''"

text \<open>
  \<^verbatim>\<open>w = watch.Watch()\<close> belongs to the kubernetes client library, which is not part of
  the repository. The model keeps the one attribute that the code acts on: the flag set
  by \<^verbatim>\<open>w.stop()\<close>. The generator \<^verbatim>\<open>w.stream(...)\<close> of that library tests the flag each
  time it is resumed after an event and ends when the flag is set.
\<close>

record watch =
  stop :: bool

definition Watch :: watch where
  "Watch = \<lparr>stop = False\<rparr>"

definition stop_watch :: "watch \<Rightarrow> watch" where
  "stop_watch w = w\<lparr>stop := True\<rparr>"

text \<open>
  How one pass through the body of the \<^verbatim>\<open>for\<close> loop of \<^verbatim>\<open>_wait\<close> ends:
  \<^verbatim>\<open>continue\<close> (or the end of the body), \<^verbatim>\<open>break\<close>, or \<^verbatim>\<open>return result\<close>, where the
  result is the dict \<^verbatim>\<open>{'ip': ...}\<close>.
\<close>

type_synonym result = "(string \<times> string) list"

datatype control = Continue | Break | Return result

text \<open>
  The body of the loop (lines 105-124) for one event. Each message is printed before
  \<^verbatim>\<open>w.stop()\<close>, so an exception of \<^verbatim>\<open>print\<close> leaves the subscription open. The message
  of line 118 is formatted from \<^verbatim>\<open>status['network']['externalIP']\<close>, which raises
  \<^verbatim>\<open>KeyError\<close> before anything is printed. The local variable \<^verbatim>\<open>ready_condition\<close> is
  assigned and never returned, so it is not part of the state. The test
  \<^verbatim>\<open>not ready_condition\<close> holds for \<^verbatim>\<open>None\<close> and for the empty string. The branch for
  \<^verbatim>\<open>'Stopped'\<close> and \<^verbatim>\<open>'Terminating'\<close> calls \<^verbatim>\<open>w.stop()\<close> and has neither \<^verbatim>\<open>break\<close> nor
  \<^verbatim>\<open>return\<close>.
\<close>

definition loop_body ::
  "console \<Rightarrow> string \<Rightarrow> string \<Rightarrow> watch \<Rightarrow> event \<Rightarrow> error + watch \<times> control" where
  "loop_body print name expected_status w ev =
     (let status = status_of ev in
      if etype ev = ''DELETE'' then
        (case print (deleted_msg name) of
           Some err \<Rightarrow> Inl err
         | None \<Rightarrow> Inr (stop_watch w, Break))
      else
        (case conditions status of
           None \<Rightarrow> Inr (w, Continue)
         | Some cs \<Rightarrow>
             (case cs of
                [] \<Rightarrow> Inl IndexError
              | c # _ \<Rightarrow>
                  (case match_condition c expected_status of
                     None \<Rightarrow> Inr (w, Continue)
                   | Some ready_condition \<Rightarrow>
                       if ready_condition = [] then Inr (w, Continue)
                       else if ready_condition = ''Ready'' then
                         (case network status of
                            None \<Rightarrow> Inl (KeyError ''network'')
                          | Some net \<Rightarrow>
                              (case net ''externalIP'' of
                                 None \<Rightarrow> Inl (KeyError ''externalIP'')
                               | Some ip \<Rightarrow>
                                   (case print (ready_msg name ip) of
                                      Some err \<Rightarrow> Inl err
                                    | None \<Rightarrow> Inr (stop_watch w, Return [(''ip'', ip)]))))
                       else if ready_condition = ''Stopped'' \<or> ready_condition = ''Terminating''
                       then
                         (case print (but_is_msg name ready_condition) of
                            Some err \<Rightarrow> Inl err
                          | None \<Rightarrow> Inr (stop_watch w, Continue))
                       else Inr (w, Continue)))))"

text \<open>
  \<^verbatim>\<open>_wait\<close> (lines 93-124) over the events that the subscription delivers, as a finite
  list: the loop ends with the list, with \<^verbatim>\<open>break\<close>, with \<^verbatim>\<open>return\<close>, with an exception,
  or when the generator finds the stop flag set. Falling out of the loop returns
  \<^verbatim>\<open>None\<close>. The final state of the Watch object is returned with the value.
\<close>

fun wait ::
  "console \<Rightarrow> string \<Rightarrow> string \<Rightarrow> watch \<Rightarrow> event list \<Rightarrow> error + watch \<times> result option" where
  "wait print name expected_status w [] = Inr (w, None)"
| "wait print name expected_status w (ev # evs) =
     (case loop_body print name expected_status w ev of
        Inl err \<Rightarrow> Inl err
      | Inr (w', Break) \<Rightarrow> Inr (w', None)
      | Inr (w', Return r) \<Rightarrow> Inr (w', Some r)
      | Inr (w', Continue) \<Rightarrow>
          if stop w' then Inr (w', None) else wait print name expected_status w' evs)"

text \<open>
  \<^verbatim>\<open>ready\<close> (lines 84-131) creates the Watch object, reports that it waits, through
  \<^verbatim>\<open>progress.add_task\<close> when a progress object is given and through \<^verbatim>\<open>print\<close> otherwise,
  and returns what \<^verbatim>\<open>_wait\<close> returns. The argument \<open>progress\<close> is \<open>None\<close> for Python's
  \<^verbatim>\<open>None\<close> and holds the \<^verbatim>\<open>add_task\<close> of the progress object otherwise. The arguments
  \<^verbatim>\<open>namespace\<close> and \<^verbatim>\<open>name\<close> select the subscription; the events it delivers stand for
  that.
\<close>

definition ready ::
  "console \<Rightarrow> event list \<Rightarrow> string \<Rightarrow> string \<Rightarrow> string \<Rightarrow> console option \<Rightarrow>
     error + result option" where
  "ready print evs namespace name expected_status progress =
     (let w = Watch in
      case progress of
        Some add_task \<Rightarrow>
          (case add_task (waiting_msg namespace name expected_status) of
             Some err \<Rightarrow> Inl err
           | None \<Rightarrow> map_sum id snd (wait print name expected_status w evs))
      | None \<Rightarrow>
          (case print (waiting_msg namespace name expected_status) of
             Some err \<Rightarrow> Inl err
           | None \<Rightarrow> map_sum id snd (wait print name expected_status w evs)))"

text \<open>
  The exception, if any, of the call that reports the waiting message in \<^verbatim>\<open>ready\<close>.
\<close>

definition announce :: "console \<Rightarrow> console option \<Rightarrow> string \<Rightarrow> error option" where
  "announce print progress msg =
     (case progress of Some add_task \<Rightarrow> add_task msg | None \<Rightarrow> print msg)"

text \<open>
  The same loop over a subscription that never ends by itself, as a stream of events.
  The value \<open>None\<close> of the option type means that the loop does not return.
\<close>

partial_function (option) wait_stream ::
  "console \<Rightarrow> string \<Rightarrow> string \<Rightarrow> watch \<Rightarrow> event stream \<Rightarrow>
     (error + watch \<times> result option) option" where
  "wait_stream print name expected_status w evs =
     (case loop_body print name expected_status w (shd evs) of
        Inl err \<Rightarrow> Some (Inl err)
      | Inr (w', c) \<Rightarrow>
          (case c of
             Break \<Rightarrow> Some (Inr (w', None))
           | Return r \<Rightarrow> Some (Inr (w', Some r))
           | Continue \<Rightarrow>
               if stop w' then Some (Inr (w', None))
               else wait_stream print name expected_status w' (stl evs)))"

text \<open>
  An event after which the loop takes the next one with the Watch object unchanged and
  nothing printed: its type is not \<^verbatim>\<open>'DELETE'\<close>, and either its status has no \<^verbatim>\<open>'conditions'\<close> key or
  the first condition does not match the requested outcome.
\<close>

definition keeps_waiting :: "string \<Rightarrow> event \<Rightarrow> bool" where
  "keeps_waiting expected_status ev =
     (etype ev \<noteq> ''DELETE'' \<and>
      (case conditions (status_of ev) of
         None \<Rightarrow> True
       | Some [] \<Rightarrow> False
       | Some (c # _) \<Rightarrow> match_condition c expected_status = None))"

text \<open>
  Whether \<^verbatim>\<open>_wait\<close> has come to a decision: an exception, or the subscription stopped
  by \<^verbatim>\<open>w.stop()\<close>.
\<close>

definition decided :: "error + watch \<times> result option \<Rightarrow> bool" where
  "decided r = (case r of Inl err \<Rightarrow> True | Inr (w, v) \<Rightarrow> stop w)"

section \<open>Creating a VirtualServer\<close>

text \<open>
  A manifest is the value that \<^verbatim>\<open>yaml.safe_load\<close> returns: here \<^verbatim>\<open>None\<close>, a string, or a
  dict with string keys (an association list, looked up with \<open>map_of\<close>).
\<close>

datatype pyval = PNone | PStr string | PDict "(string \<times> pyval) list"

text \<open>Python's truth value: \<^verbatim>\<open>None\<close>, the empty string and the empty dict are false.\<close>

fun truthy :: "pyval \<Rightarrow> bool" where
  "truthy PNone = False"
| "truthy (PStr s) = (s \<noteq> [])"
| "truthy (PDict d) = (d \<noteq> [])"

text \<open>
  \<^verbatim>\<open>v[k]\<close> for a string key: \<^verbatim>\<open>KeyError\<close> on a dict without the key, \<^verbatim>\<open>TypeError\<close> on
  \<^verbatim>\<open>None\<close> and on a string.
\<close>

fun getitem :: "pyval \<Rightarrow> string \<Rightarrow> error + pyval" where
  "getitem (PDict d) k = (case map_of d k of None \<Rightarrow> Inl (KeyError k) | Some v \<Rightarrow> Inr v)"
| "getitem PNone k = Inl TypeError"
| "getitem (PStr s) k = Inl TypeError"

text \<open>The keyword arguments of \<^verbatim>\<open>create_namespaced_custom_object\<close> (lines 49-55).\<close>

record request =
  group :: string
  version :: string
  namespace :: pyval
  plural :: string
  body :: pyval

definition GROUP :: string where
  "GROUP = ''virtualservers.coreweave.com''"

definition VERSION :: string where
  "VERSION = ''v1alpha1''"

definition PLURAL :: string where
  "PLURAL = ''virtualservers''"

text \<open>
  \<^verbatim>\<open>create\<close> (lines 40-55). The resource gateway \<^verbatim>\<open>self.api\<close> is outside the repository
  and is the parameter \<open>api\<close>. The first component of the result lists the calls made to
  the gateway, the second is the value returned or the exception raised.
\<close>

definition create :: "(request \<Rightarrow> error + 'r) \<Rightarrow> pyval \<Rightarrow> request list \<times> (error + 'r)" where
  "create api manifest =
     (case getitem manifest ''metadata'' of
        Inl err \<Rightarrow> ([], Inl err)
      | Inr metadata \<Rightarrow>
          if \<not> truthy metadata then ([], Inl TypeError)
          else
            (case getitem metadata ''namespace'' of
               Inl err \<Rightarrow> ([], Inl err)
             | Inr ns \<Rightarrow>
                 (case getitem metadata ''name'' of
                    Inl err \<Rightarrow> ([], Inl err)
                  | Inr name \<Rightarrow>
                      if \<not> truthy ns \<or> \<not> truthy name then ([], Inl ValueError)
                      else
                        (let rq = \<lparr>group = GROUP, version = VERSION, namespace = ns,
                                   plural = PLURAL, body = manifest\<rparr>
                         in ([rq], api rq)))))"

text \<open>
  The precondition of the claim about \<^verbatim>\<open>create\<close>: the manifest has a metadata dict in
  which \<^verbatim>\<open>namespace\<close> and \<^verbatim>\<open>name\<close> are present and not empty.
\<close>

definition has_identity :: "pyval \<Rightarrow> bool" where
  "has_identity manifest =
     (case getitem manifest ''metadata'' of
        Inr (PDict d) \<Rightarrow>
          (case (map_of d ''namespace'', map_of d ''name'') of
             (Some ns, Some name) \<Rightarrow> truthy ns \<and> truthy name
           | _ \<Rightarrow> False)
      | _ \<Rightarrow> False)"

section \<open>Example events\<close>

definition ready_cond :: condition where
  "ready_cond =
     map_of [(''reason'', ''VirtualServerReady''), (''status'', ''True''), (''type'', ''Ready'')]"

definition stopped_cond :: condition where
  "stopped_cond =
     map_of [(''reason'', ''VirtualServerStopped''), (''status'', ''False''), (''type'', ''Ready'')]"

definition terminating_cond :: condition where
  "terminating_cond =
     map_of [(''reason'', ''Terminating''), (''status'', ''False''), (''type'', ''Ready'')]"

definition pending_event :: event where
  "pending_event = \<lparr>etype = ''ADDED'', obj_status = None\<rparr>"

definition ready_event :: event where
  "ready_event =
     \<lparr>etype = ''MODIFIED'',
      obj_status = Some \<lparr>conditions = Some [ready_cond], network = Some [''externalIP'' \<mapsto> ''10.0.0.5'']\<rparr>\<rparr>"

definition ready_event_no_network :: event where
  "ready_event_no_network =
     \<lparr>etype = ''MODIFIED'', obj_status = Some \<lparr>conditions = Some [ready_cond], network = None\<rparr>\<rparr>"

definition stopped_event :: event where
  "stopped_event =
     \<lparr>etype = ''MODIFIED'', obj_status = Some \<lparr>conditions = Some [stopped_cond], network = None\<rparr>\<rparr>"

definition terminating_event :: event where
  "terminating_event =
     \<lparr>etype = ''MODIFIED'', obj_status = Some \<lparr>conditions = Some [terminating_cond], network = None\<rparr>\<rparr>"

definition deleted_event :: event where
  "deleted_event = \<lparr>etype = ''DELETE'', obj_status = None\<rparr>"

definition empty_conditions_event :: event where
  "empty_conditions_event =
     \<lparr>etype = ''MODIFIED'', obj_status = Some \<lparr>conditions = Some [], network = None\<rparr>\<rparr>"

text \<open>
  The event that a Kubernetes watch delivers when the resource is deleted: its type is
  \<^verbatim>\<open>'DELETED'\<close>, and the object is the last state of the resource.
\<close>

definition k8s_deleted_event :: event where
  "k8s_deleted_event =
     \<lparr>etype = ''DELETED'',
      obj_status = Some \<lparr>conditions = Some [terminating_cond], network = None\<rparr>\<rparr>"

text \<open>
  Two consoles: one that prints every text, as the builtin \<^verbatim>\<open>print\<close> does, and one that
  raises on the waiting message for the outcome name \<^verbatim>\<open>'[/x]'\<close>, a closing tag that
  nothing opens.
\<close>

definition silent :: console where
  "silent msg = None"

definition strict :: console where
  "strict msg =
     (if msg = waiting_msg ''tenant-a'' ''test'' ''[/x]'' then Some MarkupError else None)"

section \<open>Example manifests\<close>

definition valid_manifest :: pyval where
  "valid_manifest =
     PDict [(''apiVersion'', PStr ''virtualservers.coreweave.com/v1alpha1''),
            (''metadata'', PDict [(''name'', PStr ''test''), (''namespace'', PStr ''tenant-a'')])]"

definition nameless_manifest :: pyval where
  "nameless_manifest = PDict [(''metadata'', PDict [(''namespace'', PStr ''tenant-a'')])]"

definition empty_name_manifest :: pyval where
  "empty_name_manifest =
     PDict [(''metadata'', PDict [(''name'', PStr []), (''namespace'', PStr ''tenant-a'')])]"

text \<open>
  The exceptions with which \<^verbatim>\<open>create\<close> can end before it calls the gateway: the two it
  raises itself, and \<^verbatim>\<open>KeyError\<close> from the three dict lookups.
\<close>

definition validation_errors :: "error set" where
  "validation_errors =
     {TypeError, ValueError, KeyError ''metadata'', KeyError ''namespace'', KeyError ''name''}"

section \<open>Properties of the matcher\<close>

lemma EXPECTED_CONDITIONS_dom:
  "EXPECTED_CONDITIONS name = Some spec \<Longrightarrow>
     name = ''Stopped'' \<or> name = ''Ready'' \<or> name = ''Terminating''"
  by (simp add: EXPECTED_CONDITIONS_def split: if_splits)

lemma EXPECTED_CONDITIONS_fields:
  "EXPECTED_CONDITIONS name = Some spec \<Longrightarrow>
     spec ''reason'' \<noteq> None \<and> spec ''status'' \<noteq> None \<and> spec ''type'' \<noteq> None"
  by (auto simp add: EXPECTED_CONDITIONS_def split: if_splits)

lemmas example_defs =
  ready_cond_def stopped_cond_def terminating_cond_def pending_event_def ready_event_def
  ready_event_no_network_def stopped_event_def terminating_event_def deleted_event_def
  empty_conditions_event_def k8s_deleted_event_def silent_def

lemmas watch_defs =
  loop_body_def status_of_def empty_status_def Watch_def stop_watch_def
  match_condition_def EXPECTED_CONDITIONS_def

section \<open>The loop body\<close>

lemma match_condition_Some:
  "match_condition c exp = Some rc \<Longrightarrow>
     rc = exp \<and> (exp = ''Stopped'' \<or> exp = ''Ready'' \<or> exp = ''Terminating'')"
  by (auto simp add: match_condition_def split: option.splits if_splits
      dest: EXPECTED_CONDITIONS_dom)

lemma stop_stop_watch: "stop (stop_watch w)"
  by (simp add: stop_watch_def)

lemma loop_body_DELETE:
  "etype ev = ''DELETE'' \<Longrightarrow>
     loop_body pr nm exp w ev =
       (case pr (deleted_msg nm) of Some err \<Rightarrow> Inl err | None \<Rightarrow> Inr (stop_watch w, Break))"
  by (simp add: loop_body_def)

lemma loop_body_no_conditions_key:
  "etype ev \<noteq> ''DELETE'' \<Longrightarrow> conditions (status_of ev) = None \<Longrightarrow>
     loop_body pr nm exp w ev = Inr (w, Continue)"
  by (simp add: loop_body_def)

lemma loop_body_empty_conditions:
  "etype ev \<noteq> ''DELETE'' \<Longrightarrow> conditions (status_of ev) = Some [] \<Longrightarrow>
     loop_body pr nm exp w ev = Inl IndexError"
  by (simp add: loop_body_def)

lemma loop_body_no_match:
  "etype ev \<noteq> ''DELETE'' \<Longrightarrow> conditions (status_of ev) = Some (c # cs) \<Longrightarrow>
     match_condition c exp = None \<Longrightarrow> loop_body pr nm exp w ev = Inr (w, Continue)"
  by (simp add: loop_body_def)

lemma loop_body_match_Ready:
  assumes "etype ev \<noteq> ''DELETE''" "conditions (status_of ev) = Some (c # cs)"
    "match_condition c ''Ready'' = Some ''Ready''"
  shows "loop_body pr nm ''Ready'' w ev =
           (case network (status_of ev) of
              None \<Rightarrow> Inl (KeyError ''network'')
            | Some net \<Rightarrow>
                (case net ''externalIP'' of
                   None \<Rightarrow> Inl (KeyError ''externalIP'')
                 | Some ip \<Rightarrow>
                     (case pr (ready_msg nm ip) of
                        Some err \<Rightarrow> Inl err
                      | None \<Rightarrow> Inr (stop_watch w, Return [(''ip'', ip)]))))"
  using assms by (simp add: loop_body_def)

lemma loop_body_match_Stopped_Terminating:
  assumes "etype ev \<noteq> ''DELETE''" "conditions (status_of ev) = Some (c # cs)"
    "match_condition c exp = Some exp" "exp = ''Stopped'' \<or> exp = ''Terminating''"
  shows "loop_body pr nm exp w ev =
           (case pr (but_is_msg nm exp) of
              Some err \<Rightarrow> Inl err
            | None \<Rightarrow> Inr (stop_watch w, Continue))"
  using assms(4)
proof
  assume "exp = ''Stopped''"
  with assms(1-3) show ?thesis by (simp add: loop_body_def)
next
  assume "exp = ''Terminating''"
  with assms(1-3) show ?thesis by (simp add: loop_body_def)
qed

lemma loop_body_keeps_waiting:
  assumes "keeps_waiting exp ev"
  shows "loop_body pr nm exp w ev = Inr (w, Continue)"
proof -
  from assms have t: "etype ev \<noteq> ''DELETE''"
    by (simp add: keeps_waiting_def)
  show ?thesis
  proof (cases "conditions (status_of ev)")
    case None
    with t show ?thesis by (rule loop_body_no_conditions_key)
  next
    case (Some cs)
    show ?thesis
    proof (cases cs)
      case Nil
      with Some assms show ?thesis by (simp add: keeps_waiting_def)
    next
      case (Cons c cs')
      with Some assms have "match_condition c exp = None"
        by (simp add: keeps_waiting_def)
      with t Some Cons show ?thesis by (simp add: loop_body_no_match)
    qed
  qed
qed

lemma loop_body_cases:
  "(\<exists>err. loop_body pr nm exp w ev = Inl err) \<or>
   loop_body pr nm exp w ev = Inr (w, Continue) \<or>
   loop_body pr nm exp w ev = Inr (stop_watch w, Continue) \<or>
   loop_body pr nm exp w ev = Inr (stop_watch w, Break) \<or>
   (\<exists>r. loop_body pr nm exp w ev = Inr (stop_watch w, Return r))"
proof (cases "etype ev = ''DELETE''")
  case True
  then show ?thesis
    by (cases "pr (deleted_msg nm)") (simp_all add: loop_body_DELETE)
next
  case t: False
  show ?thesis
  proof (cases "conditions (status_of ev)")
    case None
    with t show ?thesis by (simp add: loop_body_no_conditions_key)
  next
    case (Some cs)
    show ?thesis
    proof (cases cs)
      case Nil
      with t Some show ?thesis by (simp add: loop_body_empty_conditions)
    next
      case (Cons c cs')
      show ?thesis
      proof (cases "match_condition c exp")
        case None
        with t Some Cons show ?thesis by (simp add: loop_body_no_match)
      next
        case m: (Some rc)
        then have rc: "rc = exp" and names: "exp = ''Stopped'' \<or> exp = ''Ready'' \<or> exp = ''Terminating''"
          by (auto dest: match_condition_Some)
        from t Some Cons have c: "conditions (status_of ev) = Some (c # cs')" by simp
        from m rc have me: "match_condition c exp = Some exp" by simp
        show ?thesis
        proof (cases "exp = ''Ready''")
          case True
          with me have "match_condition c ''Ready'' = Some ''Ready''" by simp
          from loop_body_match_Ready[OF t c this, of pr nm w] True show ?thesis
            by (simp split: option.split)
        next
          case False
          with names have "exp = ''Stopped'' \<or> exp = ''Terminating''" by simp
          from loop_body_match_Stopped_Terminating[OF t c me this, of pr nm w] show ?thesis
            by (simp split: option.split)
        qed
      qed
    qed
  qed
qed

lemma loop_body_ends_stopped:
  "loop_body pr nm exp w ev = Inr (w', c) \<Longrightarrow> c \<noteq> Continue \<Longrightarrow> stop w'"
  using loop_body_cases[of pr nm exp w ev] by (auto simp add: stop_stop_watch)

lemma loop_body_Continue:
  "loop_body pr nm exp w ev = Inr (w', Continue) \<Longrightarrow> \<not> stop w' \<Longrightarrow> w' = w"
  using loop_body_cases[of pr nm exp w ev] by (auto simp add: stop_stop_watch)

lemma match_condition_distinct:
  "match_condition c other = Some other \<Longrightarrow> exp \<noteq> other \<Longrightarrow> match_condition c exp = None"
  by (auto simp add: match_condition_def EXPECTED_CONDITIONS_def split: if_splits)

lemma match_condition_unregistered:
  "EXPECTED_CONDITIONS exp = None \<Longrightarrow> match_condition c exp = None"
  by (simp add: match_condition_def)

lemma keeps_waiting_unregistered:
  "EXPECTED_CONDITIONS exp = None \<Longrightarrow> etype ev \<noteq> ''DELETE'' \<Longrightarrow>
     conditions (status_of ev) \<noteq> Some [] \<Longrightarrow> keeps_waiting exp ev"
  by (simp add: keeps_waiting_def match_condition_unregistered split: option.splits list.splits)

section \<open>The loop over the events\<close>

lemma wait_keeps_waiting_prefix:
  "\<forall>x\<in>set pre. keeps_waiting exp x \<Longrightarrow> \<not> stop w \<Longrightarrow>
     wait pr nm exp w (pre @ evs) = wait pr nm exp w evs"
  by (induction pre) (simp_all add: loop_body_keeps_waiting)

lemma wait_append_decided:
  "\<not> stop w \<Longrightarrow> decided (wait pr nm exp w xs) \<Longrightarrow> wait pr nm exp w (xs @ ys) = wait pr nm exp w xs"
proof (induction xs arbitrary: w)
  case Nil
  then show ?case by (simp add: decided_def)
next
  case (Cons x xs)
  show ?case
  proof (cases "loop_body pr nm exp w x")
    case (Inl err)
    then show ?thesis by simp
  next
    case (Inr p)
    obtain w' c where p: "p = (w', c)" by (cases p)
    show ?thesis
    proof (cases c)
      case Continue
      show ?thesis
      proof (cases "stop w'")
        case True
        with Inr p Continue show ?thesis by simp
      next
        case False
        with Inr p Continue Cons.prems have "decided (wait pr nm exp w' xs)" by simp
        with False have "wait pr nm exp w' (xs @ ys) = wait pr nm exp w' xs" by (rule Cons.IH)
        with Inr p Continue False show ?thesis by simp
      qed
    next
      case Break
      with Inr p show ?thesis by simp
    next
      case (Return r)
      with Inr p show ?thesis by simp
    qed
  qed
qed

lemma wait_undecided:
  "\<not> stop w \<Longrightarrow> \<not> decided (wait pr nm exp w xs) \<Longrightarrow> wait pr nm exp w xs = Inr (w, None)"
proof (induction xs arbitrary: w)
  case Nil
  then show ?case by simp
next
  case (Cons x xs)
  show ?case
  proof (cases "loop_body pr nm exp w x")
    case (Inl err)
    with Cons.prems show ?thesis by (simp add: decided_def)
  next
    case (Inr p)
    obtain w' c where p: "p = (w', c)" by (cases p)
    show ?thesis
    proof (cases c)
      case Continue
      show ?thesis
      proof (cases "stop w'")
        case True
        with Inr p Continue Cons.prems show ?thesis by (simp add: decided_def)
      next
        case False
        with Inr p Continue have same: "w' = w" by (simp add: loop_body_Continue)
        from Inr p Continue False Cons.prems have "\<not> decided (wait pr nm exp w' xs)" by simp
        with False have "wait pr nm exp w' xs = Inr (w', None)" by (rule Cons.IH)
        with Inr p Continue False same show ?thesis by simp
      qed
    next
      case Break
      with Inr p have "stop w'" by (auto dest: loop_body_ends_stopped)
      with Inr p Break Cons.prems show ?thesis by (simp add: decided_def)
    next
      case (Return r)
      with Inr p have "stop w'" by (auto dest: loop_body_ends_stopped)
      with Inr p Return Cons.prems show ?thesis by (simp add: decided_def)
    qed
  qed
qed

lemma ready_wait:
  "ready pr evs ns nm exp p =
     (case announce pr p (waiting_msg ns nm exp) of
        Some err \<Rightarrow> Inl err
      | None \<Rightarrow> map_sum id snd (wait pr nm exp Watch evs))"
  by (simp add: ready_def announce_def split: option.splits)

lemma Watch_not_stopped: "\<not> stop Watch"
  by (simp add: Watch_def)

lemma announce_silent: "announce silent None msg = None"
  by (simp add: announce_def silent_def)

lemma wait_unregistered:
  "EXPECTED_CONDITIONS exp = None \<Longrightarrow>
   \<forall>ev\<in>set evs. etype ev \<noteq> ''DELETE'' \<and> conditions (status_of ev) \<noteq> Some [] \<Longrightarrow>
   \<not> stop w \<Longrightarrow> wait pr nm exp w evs = Inr (w, None)"
proof -
  assume "EXPECTED_CONDITIONS exp = None"
    and "\<forall>ev\<in>set evs. etype ev \<noteq> ''DELETE'' \<and> conditions (status_of ev) \<noteq> Some []"
    and ns: "\<not> stop w"
  then have "\<forall>ev\<in>set evs. keeps_waiting exp ev"
    by (simp add: keeps_waiting_unregistered)
  from wait_keeps_waiting_prefix[OF this ns, of pr nm "[]"] show ?thesis by simp
qed

section \<open>The matcher is exact\<close>

text \<open>
  Claim C7. For a registered outcome, the condition matches exactly when its type, status
  and reason equal the expected values of the vocabulary entry; a difference in one of the
  three fields gives no match, and the expected condition of an entry matches the entry.
\<close>

theorem match_condition_exact:
  assumes "EXPECTED_CONDITIONS name = Some spec"
  shows "match_condition c name =
           (if c ''type'' = spec ''type'' \<and> c ''status'' = spec ''status'' \<and>
               c ''reason'' = spec ''reason''
            then Some name else None) \<and>
         match_condition spec name = Some name"
  using assms EXPECTED_CONDITIONS_fields[OF assms]
  by (auto simp add: match_condition_def)

theorem match_condition_exact_witness:
  "EXPECTED_CONDITIONS ''Stopped'' = Some stopped_cond \<and>
   match_condition terminating_cond ''Stopped'' = None \<and>
   match_condition stopped_cond ''Stopped'' = Some ''Stopped''"
proof -
  have h: "EXPECTED_CONDITIONS ''Stopped'' = Some stopped_cond"
    by (simp add: EXPECTED_CONDITIONS_def stopped_cond_def)
  have d: "terminating_cond ''reason'' \<noteq> stopped_cond ''reason''"
    by (simp add: terminating_cond_def stopped_cond_def)
  from match_condition_exact[OF h, of terminating_cond] h d show ?thesis by simp
qed

text \<open>
  Claim C10. The matcher answers with the requested outcome name or with no match; it
  never names another outcome.
\<close>

theorem match_condition_requested_or_none:
  "match_condition c name = Some name \<or> match_condition c name = None"
  by (simp add: match_condition_def split: option.splits)

theorem match_condition_requested_or_none_witness:
  "match_condition stopped_cond ''Ready'' = None \<and>
   match_condition ready_cond ''Ready'' = Some ''Ready''"
proof -
  have a: "match_condition stopped_cond ''Ready'' \<noteq> Some ''Ready''"
    by (simp add: match_condition_def EXPECTED_CONDITIONS_def stopped_cond_def)
  have b: "match_condition ready_cond ''Ready'' \<noteq> None"
    by (simp add: match_condition_def EXPECTED_CONDITIONS_def ready_cond_def)
  from match_condition_requested_or_none[of stopped_cond "''Ready''"]
  have "match_condition stopped_cond ''Ready'' = None"
  proof
    assume "match_condition stopped_cond ''Ready'' = Some ''Ready''"
    with a show ?thesis by (rule notE)
  next
    assume "match_condition stopped_cond ''Ready'' = None"
    then show ?thesis .
  qed
  moreover
  from match_condition_requested_or_none[of ready_cond "''Ready''"]
  have "match_condition ready_cond ''Ready'' = Some ''Ready''"
  proof
    assume "match_condition ready_cond ''Ready'' = Some ''Ready''"
    then show ?thesis .
  next
    assume "match_condition ready_cond ''Ready'' = None"
    with b show ?thesis by (rule notE)
  qed
  ultimately show ?thesis by (rule conjI)
qed

section \<open>Terminal states are absorbing\<close>

text \<open>
  Claim C2. Once \<^verbatim>\<open>_wait\<close> has come to a decision on the events received so far (it has
  returned the address, left the loop after a deletion, stopped the subscription, or raised
  an exception), events that follow change neither what \<^verbatim>\<open>_wait\<close> yields nor what
  \<^verbatim>\<open>ready\<close> returns: a watch resolves at most once.
\<close>

theorem wait_terminal_absorbing:
  assumes "decided (wait pr nm exp Watch xs)"
  shows "wait pr nm exp Watch (xs @ ys) = wait pr nm exp Watch xs \<and>
         ready pr (xs @ ys) ns nm exp p = ready pr xs ns nm exp p"
  using wait_append_decided[OF Watch_not_stopped assms, of ys]
  by (simp add: ready_wait split: option.splits)

theorem wait_terminal_absorbing_witness:
  "decided (wait silent ''test'' ''Ready'' Watch [pending_event, ready_event]) \<and>
   ready silent ([pending_event, ready_event] @ [deleted_event]) ''tenant-a'' ''test'' ''Ready''
     (Some silent) = Inr (Some [(''ip'', ''10.0.0.5'')])"
proof -
  have d: "decided (wait silent ''test'' ''Ready'' Watch [pending_event, ready_event])"
    by (simp add: decided_def watch_defs example_defs)
  have r: "ready silent [pending_event, ready_event] ''tenant-a'' ''test'' ''Ready'' (Some silent) =
      Inr (Some [(''ip'', ''10.0.0.5'')])"
    by (simp add: ready_def watch_defs example_defs)
  from wait_terminal_absorbing[OF d, of "[deleted_event]" "''tenant-a''" "Some silent"] d r
  show ?thesis by simp
qed

section \<open>Matches of an outcome that was not requested\<close>




section \<open>Events with an empty list of conditions\<close>

text \<open>
  Claim C3 at an event whose status holds \<^verbatim>\<open>'conditions': []\<close>: the test
  \<^verbatim>\<open>'conditions' not in status\<close> lets it pass and \<^verbatim>\<open>status['conditions'][0]\<close> raises
  \<^verbatim>\<open>IndexError\<close>, which \<^verbatim>\<open>ready\<close> passes on to its caller. An event without the key is
  skipped (lemma \<open>loop_body_no_conditions_key\<close>).
\<close>

theorem empty_conditions_raise_IndexError:
  "etype empty_conditions_event \<noteq> ''DELETE'' \<and>
   conditions (status_of empty_conditions_event) = Some [] \<and>
   loop_body silent ''test'' ''Ready'' Watch empty_conditions_event = Inl IndexError \<and>
   ready silent [empty_conditions_event] ''tenant-a'' ''test'' ''Ready'' None = Inl IndexError"
  by (simp add: ready_def watch_defs example_defs)

section \<open>A match of Ready without network information\<close>

text \<open>
  Claim C4, as the code has it. When \<^verbatim>\<open>'Ready'\<close> is the requested outcome and the watch
  is waiting, an event (of a type other than \<^verbatim>\<open>'DELETE'\<close>) whose first condition matches
  the vocabulary entry of \<^verbatim>\<open>'Ready'\<close> and whose status has no \<^verbatim>\<open>'network'\<close> entry, or a
  \<^verbatim>\<open>'network'\<close> entry without \<^verbatim>\<open>'externalIP'\<close>, makes \<^verbatim>\<open>ready\<close> end with the exception
  \<^verbatim>\<open>KeyError\<close> for the missing key: the watch neither goes on waiting nor returns an
  address. (If the waiting message cannot be printed, \<^verbatim>\<open>ready\<close> has ended before the
  watch starts, with the exception of the console.) When another outcome is requested, the
  same event is not recognised and the loop takes the next event.
\<close>

theorem ready_requested_without_network_raises:
  assumes "\<forall>x\<in>set pre. keeps_waiting ''Ready'' x"
    and "etype ev \<noteq> ''DELETE''" and "conditions (status_of ev) = Some (c # cs)"
    and "match_condition c ''Ready'' = Some ''Ready''"
    and "network (status_of ev) = None \<or>
         (\<exists>net. network (status_of ev) = Some net \<and> net ''externalIP'' = None)"
  shows "ready pr (pre @ ev # evs) ns nm ''Ready'' p =
           (case announce pr p (waiting_msg ns nm ''Ready'') of
              Some err \<Rightarrow> Inl err
            | None \<Rightarrow>
                Inl (KeyError
                  (if network (status_of ev) = None then ''network'' else ''externalIP''))) \<and>
         (exp \<noteq> ''Ready'' \<longrightarrow> loop_body pr nm exp w ev = Inr (w, Continue))"
proof -
  from loop_body_match_Ready[OF assms(2,3,4), of pr nm Watch] assms(5)
  have "loop_body pr nm ''Ready'' Watch ev =
          Inl (KeyError (if network (status_of ev) = None then ''network'' else ''externalIP''))"
    by auto
  then have "wait pr nm ''Ready'' Watch (ev # evs) =
          Inl (KeyError (if network (status_of ev) = None then ''network'' else ''externalIP''))"
    by simp
  with wait_keeps_waiting_prefix[OF assms(1) Watch_not_stopped, of pr nm "ev # evs"]
  have 1: "ready pr (pre @ ev # evs) ns nm ''Ready'' p =
           (case announce pr p (waiting_msg ns nm ''Ready'') of
              Some err \<Rightarrow> Inl err
            | None \<Rightarrow>
                Inl (KeyError
                  (if network (status_of ev) = None then ''network'' else ''externalIP'')))"
    by (simp add: ready_wait split: option.splits)
  have 2: "loop_body pr nm exp w ev = Inr (w, Continue)" if "exp \<noteq> ''Ready''"
  proof -
    from assms(4) that have "match_condition c exp = None"
      by (rule match_condition_distinct)
    with assms(2,3) have "keeps_waiting exp ev"
      by (simp add: keeps_waiting_def)
    then show ?thesis by (rule loop_body_keeps_waiting)
  qed
  from 1 2 show ?thesis by simp
qed

theorem ready_requested_without_network_raises_witness:
  "ready silent ([pending_event, stopped_event] @ ready_event_no_network # [ready_event])
     ''tenant-a'' ''test'' ''Ready'' None = Inl (KeyError ''network'') \<and>
   loop_body silent ''test'' ''Terminating'' Watch ready_event_no_network = Inr (Watch, Continue)"
proof -
  have 1: "\<forall>x\<in>set [pending_event, stopped_event]. keeps_waiting ''Ready'' x"
    by (simp add: keeps_waiting_def watch_defs example_defs)
  have 2: "etype ready_event_no_network \<noteq> ''DELETE''"
    by (simp add: example_defs)
  have 3: "conditions (status_of ready_event_no_network) = Some (ready_cond # [])"
    by (simp add: status_of_def ready_event_no_network_def)
  have 4: "match_condition ready_cond ''Ready'' = Some ''Ready''"
    by (simp add: match_condition_def EXPECTED_CONDITIONS_def ready_cond_def)
  have 5: "network (status_of ready_event_no_network) = None"
    by (simp add: status_of_def ready_event_no_network_def)
  from 5 have 6: "network (status_of ready_event_no_network) = None \<or>
      (\<exists>net. network (status_of ready_event_no_network) = Some net \<and> net ''externalIP'' = None)"
    by (rule disjI1)
  have 7: "''Terminating'' \<noteq> ''Ready''"
    by simp
  from ready_requested_without_network_raises
    [OF 1 2 3 4 6, of silent "[ready_event]" "''tenant-a''" "''test''" None "''Terminating''" Watch]
    5 7
  show ?thesis by (simp add: announce_silent)
qed

text \<open>
  Claim C4 as stated fails: the first condition of the event matches the entry of
  \<^verbatim>\<open>'Ready'\<close> and the status has no \<^verbatim>\<open>'network'\<close> entry, yet with \<^verbatim>\<open>'Stopped'\<close> requested
  the watch raises nothing and goes on to the end of the events.
\<close>

theorem ready_match_skipped_when_stopped_requested:
  "match_condition ready_cond ''Ready'' = Some ''Ready'' \<and>
   conditions (status_of ready_event_no_network) = Some [ready_cond] \<and>
   network (status_of ready_event_no_network) = None \<and>
   loop_body silent ''test'' ''Stopped'' Watch ready_event_no_network = Inr (Watch, Continue) \<and>
   ready silent [ready_event_no_network] ''tenant-a'' ''test'' ''Stopped'' None = Inr None"
  by (simp add: ready_def watch_defs example_defs)

section \<open>An outcome name outside the vocabulary\<close>

text \<open>
  Claim C5, as the code has it. A requested outcome name that is not a key of
  \<^verbatim>\<open>EXPECTED_CONDITIONS\<close> is not refused: the matcher answers no match for every
  condition. If the waiting message with that name cannot be printed, \<^verbatim>\<open>ready\<close> ends
  with the exception of the console before the watch starts. Otherwise the watch stays
  waiting, with the subscription open, through all events (of a type other than
  \<^verbatim>\<open>'DELETE'\<close> and without an empty list of conditions), and \<^verbatim>\<open>ready\<close> returns \<^verbatim>\<open>None\<close>
  when the events end.
\<close>

theorem unregistered_outcome_never_matches:
  assumes "EXPECTED_CONDITIONS exp = None"
    and "\<forall>ev\<in>set evs. etype ev \<noteq> ''DELETE'' \<and> conditions (status_of ev) \<noteq> Some []"
  shows "match_condition c exp = None \<and>
         wait pr nm exp Watch evs = Inr (Watch, None) \<and>
         ready pr evs ns nm exp p =
           (case announce pr p (waiting_msg ns nm exp) of
              Some err \<Rightarrow> Inl err
            | None \<Rightarrow> Inr None)"
  using wait_unregistered[OF assms Watch_not_stopped, of pr nm] assms(1)
  by (simp add: ready_wait match_condition_unregistered split: option.splits)

theorem unregistered_outcome_never_matches_witness:
  "EXPECTED_CONDITIONS ''Running'' = None \<and>
   match_condition ready_cond ''Running'' = None \<and>
   ready silent [pending_event, ready_event, stopped_event] ''tenant-a'' ''test'' ''Running'' None =
     Inr None \<and>
   EXPECTED_CONDITIONS ''[/x]'' = None \<and>
   ready strict [pending_event, ready_event] ''tenant-a'' ''test'' ''[/x]'' None = Inl MarkupError"
proof -
  have 1: "EXPECTED_CONDITIONS ''Running'' = None"
    by (simp add: EXPECTED_CONDITIONS_def)
  have 2: "\<forall>ev\<in>set [pending_event, ready_event, stopped_event].
      etype ev \<noteq> ''DELETE'' \<and> conditions (status_of ev) \<noteq> Some []"
    by (simp add: status_of_def empty_status_def example_defs)
  have 3: "EXPECTED_CONDITIONS ''[/x]'' = None"
    by (simp add: EXPECTED_CONDITIONS_def)
  have 4: "\<forall>ev\<in>set [pending_event, ready_event].
      etype ev \<noteq> ''DELETE'' \<and> conditions (status_of ev) \<noteq> Some []"
    by (simp add: status_of_def empty_status_def example_defs)
  have 5: "announce strict None (waiting_msg ''tenant-a'' ''test'' ''[/x]'') = Some MarkupError"
    by (simp add: announce_def strict_def)
  from unregistered_outcome_never_matches
    [OF 1 2, of ready_cond silent "''test''" "''tenant-a''" None]
  have a: "match_condition ready_cond ''Running'' = None \<and>
      ready silent [pending_event, ready_event, stopped_event] ''tenant-a'' ''test'' ''Running''
        None = Inr None"
    by (simp add: announce_silent)
  from unregistered_outcome_never_matches
    [OF 3 4, of ready_cond strict "''test''" "''tenant-a''" None] 5
  have b: "ready strict [pending_event, ready_event] ''tenant-a'' ''test'' ''[/x]'' None =
      Inl MarkupError"
    by simp
  from 1 3 a b show ?thesis by simp
qed

text \<open>
  Claim C5 as stated fails: \<^verbatim>\<open>'Hibernating'\<close> is not registered, and the call of \<^verbatim>\<open>ready\<close>
  for it returns normally, without an exception.
\<close>

theorem unregistered_outcome_no_error:
  "EXPECTED_CONDITIONS ''Hibernating'' = None \<and>
   ready silent [ready_event] ''tenant-a'' ''test'' ''Hibernating'' None = Inr None"
  by (simp add: ready_def watch_defs example_defs)

section \<open>A subscription that never ends\<close>

lemma wait_stream_returns_signal_aux:
  assumes "wait_stream pr nm exp w s = Some y"
  shows "\<not> stop w \<longrightarrow> (\<exists>n. \<not> keeps_waiting exp (s !! n))"
proof (rule wait_stream.raw_induct
    [where P = "\<lambda>pr nm exp w s y. \<not> stop w \<longrightarrow> (\<exists>n. \<not> keeps_waiting exp (s !! n))", OF _ assms],
    goal_cases)
  case (1 f pr nm e w s r)
  note IH = "1"(1) and step = "1"(2)
  show ?case
  proof (cases "keeps_waiting e (shd s)")
    case False
    then have "\<not> keeps_waiting e (s !! 0)" by simp
    then show ?thesis by blast
  next
    case True
    then have lb: "loop_body pr nm e w (shd s) = Inr (w, Continue)"
      by (rule loop_body_keeps_waiting)
    show ?thesis
    proof
      assume ns: "\<not> stop w"
      with lb step have "f pr nm e w (stl s) = Some r" by simp
      then have "\<not> stop w \<longrightarrow> (\<exists>n. \<not> keeps_waiting e (stl s !! n))" by (rule IH)
      with ns obtain n where "\<not> keeps_waiting e (stl s !! n)" by blast
      then have "\<not> keeps_waiting e (s !! Suc n)" by simp
      then show "\<exists>n. \<not> keeps_waiting e (s !! n)" by blast
    qed
  qed
qed

lemma wait_stream_diverges:
  assumes "\<not> stop w" and "\<forall>n. keeps_waiting exp (s !! n)"
  shows "wait_stream pr nm exp w s = None"
proof (cases "wait_stream pr nm exp w s")
  case None
  then show ?thesis .
next
  case (Some y)
  from wait_stream_returns_signal_aux[OF Some] assms show ?thesis by blast
qed

lemma wait_stream_shift:
  "\<not> stop w \<Longrightarrow> decided (wait pr nm exp w xs) \<Longrightarrow> wait_stream pr nm exp w (xs @- s) = Some (wait pr nm exp w xs)"
proof (induction xs arbitrary: w)
  case Nil
  then show ?case by (simp add: decided_def)
next
  case (Cons x xs)
  show ?case
  proof (cases "loop_body pr nm exp w x")
    case (Inl err)
    then show ?thesis by (subst wait_stream.simps) simp
  next
    case (Inr p)
    obtain w' c where p: "p = (w', c)" by (cases p)
    show ?thesis
    proof (cases c)
      case Continue
      show ?thesis
      proof (cases "stop w'")
        case True
        with Inr p Continue show ?thesis by (subst wait_stream.simps) simp
      next
        case False
        with Inr p Continue Cons.prems have "decided (wait pr nm exp w' xs)" by simp
        with False have "wait_stream pr nm exp w' (xs @- s) = Some (wait pr nm exp w' xs)" by (rule Cons.IH)
        with Inr p Continue False show ?thesis by (subst wait_stream.simps) simp
      qed
    next
      case Break
      with Inr p show ?thesis by (subst wait_stream.simps) simp
    next
      case (Return r)
      with Inr p show ?thesis by (subst wait_stream.simps) simp
    qed
  qed
qed

text \<open>
  Claim C8, as the code has it. \<^verbatim>\<open>_wait\<close> has no deadline. On a subscription that
  delivers events for ever, none of them a \<^verbatim>\<open>DELETE\<close> event, a match of the requested
  outcome or an event with an empty list of conditions, the loop does not return; after
  every finite number of these events it is still waiting, with the subscription open.
\<close>

theorem wait_has_no_deadline:
  assumes "\<forall>n. keeps_waiting exp (s !! n)"
  shows "wait_stream pr nm exp Watch s = None \<and>
         (\<forall>k. wait pr nm exp Watch (stake k s) = Inr (Watch, None))"
proof -
  have 1: "wait_stream pr nm exp Watch s = None"
    using Watch_not_stopped assms by (rule wait_stream_diverges)
  have 2: "wait pr nm exp Watch (stake k s) = Inr (Watch, None)" for k
  proof -
    from assms have "\<forall>x\<in>set (stake k s). keeps_waiting exp x"
      by (auto simp add: set_conv_nth)
    from wait_keeps_waiting_prefix[OF this Watch_not_stopped, of pr nm "[]"] show ?thesis by simp
  qed
  from 1 2 show ?thesis by simp
qed

theorem wait_has_no_deadline_witness:
  "wait_stream silent ''test'' ''Stopped'' Watch (sconst ready_event) = None \<and>
   wait silent ''test'' ''Stopped'' Watch (stake 3 (sconst ready_event)) = Inr (Watch, None)"
proof -
  have k: "keeps_waiting ''Stopped'' ready_event"
    by (simp add: keeps_waiting_def watch_defs example_defs)
  then have "\<forall>n. keeps_waiting ''Stopped'' (sconst ready_event !! n)" by simp
  from wait_has_no_deadline[OF this, of silent "''test''"] show ?thesis by simp
qed

text \<open>
  Claim C8 as stated fails: on the subscription that delivers the same event without a
  status again and again, the watch for \<^verbatim>\<open>'Ready'\<close> does not return.
\<close>

theorem wait_never_times_out:
  "wait_stream silent ''test'' ''Ready'' Watch (sconst pending_event) = None"
proof -
  have "keeps_waiting ''Ready'' pending_event"
    by (simp add: keeps_waiting_def watch_defs example_defs)
  then have "\<forall>n. keeps_waiting ''Ready'' (sconst pending_event !! n)" by simp
  with Watch_not_stopped show ?thesis by (rule wait_stream_diverges)
qed

section \<open>Deletion of the watched resource\<close>

text \<open>
  Claim C6 at the event that a Kubernetes watch delivers for a deletion. Its type is
  \<^verbatim>\<open>'DELETED'\<close>, while line 106 compares the type with \<^verbatim>\<open>'DELETE'\<close>: the branch that
  reports the deletion and leaves the loop is not taken, the event is treated as any other,
  and the watch goes on waiting. A later event still resolves the watch, and on a
  subscription that delivers nothing of interest after the deletion \<^verbatim>\<open>_wait\<close> does not
  return.
\<close>

theorem deletion_not_recognised:
  "etype k8s_deleted_event = ''DELETED'' \<and>
   loop_body silent ''test'' ''Ready'' Watch k8s_deleted_event = Inr (Watch, Continue) \<and>
   ready silent [k8s_deleted_event, ready_event] ''tenant-a'' ''test'' ''Ready'' None =
     Inr (Some [(''ip'', ''10.0.0.5'')]) \<and>
   wait_stream silent ''test'' ''Ready'' Watch (k8s_deleted_event ## sconst pending_event) = None"
proof -
  have 1: "loop_body silent ''test'' ''Ready'' Watch k8s_deleted_event = Inr (Watch, Continue)"
    by (simp add: watch_defs example_defs)
  have 2: "ready silent [k8s_deleted_event, ready_event] ''tenant-a'' ''test'' ''Ready'' None =
     Inr (Some [(''ip'', ''10.0.0.5'')])"
    by (simp add: ready_def watch_defs example_defs)
  have k: "keeps_waiting ''Ready'' k8s_deleted_event" "keeps_waiting ''Ready'' pending_event"
    by (simp_all add: keeps_waiting_def watch_defs example_defs)
  have "keeps_waiting ''Ready'' ((k8s_deleted_event ## sconst pending_event) !! n)" for n
    using k by (cases n) simp_all
  then have "\<forall>n. keeps_waiting ''Ready'' ((k8s_deleted_event ## sconst pending_event) !! n)"
    by blast
  with Watch_not_stopped
  have 3: "wait_stream silent ''test'' ''Ready'' Watch (k8s_deleted_event ## sconst pending_event) =
      None"
    by (rule wait_stream_diverges)
  from 1 2 3 show ?thesis by (simp add: k8s_deleted_event_def)
qed

section \<open>Validation of the manifest by create\<close>

lemma getitem_cases:
  "getitem v k = Inl TypeError \<or> getitem v k = Inl (KeyError k) \<or> (\<exists>x. getitem v k = Inr x)"
  by (cases v) (auto split: option.splits)

lemma create_invalid:
  assumes "\<not> has_identity m"
  shows "\<exists>e\<in>validation_errors. create api m = ([], Inl e)"
proof (cases "getitem m ''metadata''")
  case (Inl e)
  with getitem_cases[of m "''metadata''"] show ?thesis
    by (auto simp add: create_def validation_errors_def)
next
  case (Inr md)
  show ?thesis
  proof (cases md)
    case PNone
    with Inr show ?thesis by (simp add: create_def validation_errors_def)
  next
    case (PStr s)
    with Inr show ?thesis by (simp add: create_def validation_errors_def)
  next
    case (PDict d)
    with Inr assms show ?thesis
      by (auto simp add: create_def has_identity_def validation_errors_def Let_def
          split: option.splits)
  qed
qed

text \<open>
  Claim C9. A manifest in which the metadata, \<^verbatim>\<open>metadata.namespace\<close> or
  \<^verbatim>\<open>metadata.name\<close> is missing or empty makes \<^verbatim>\<open>create\<close> end with an exception
  (\<^verbatim>\<open>ValueError\<close> for an empty field, \<^verbatim>\<open>KeyError\<close> for a missing key, \<^verbatim>\<open>TypeError\<close> for
  empty metadata) without a call to the gateway. A manifest with both fields present and not
  empty passes the checks: the gateway is called once, with the manifest as body, and
  \<^verbatim>\<open>create\<close> returns what the gateway returns.
\<close>

theorem create_requires_identity:
  "(has_identity m \<longrightarrow>
      (\<exists>ns. truthy ns \<and>
         create api m =
           ([\<lparr>group = GROUP, version = VERSION, namespace = ns, plural = PLURAL, body = m\<rparr>],
            api \<lparr>group = GROUP, version = VERSION, namespace = ns, plural = PLURAL, body = m\<rparr>))) \<and>
   (\<not> has_identity m \<longrightarrow> (\<exists>e\<in>validation_errors. create api m = ([], Inl e)))"
proof (intro conjI impI)
  assume "has_identity m"
  then show "\<exists>ns. truthy ns \<and>
         create api m =
           ([\<lparr>group = GROUP, version = VERSION, namespace = ns, plural = PLURAL, body = m\<rparr>],
            api \<lparr>group = GROUP, version = VERSION, namespace = ns, plural = PLURAL, body = m\<rparr>)"
    by (auto simp add: has_identity_def create_def Let_def
      split: sum.splits pyval.splits option.splits)
next
  assume "\<not> has_identity m"
  then show "\<exists>e\<in>validation_errors. create api m = ([], Inl e)"
    by (rule create_invalid)
qed

theorem create_requires_identity_witness:
  "has_identity valid_manifest \<and>
   create (\<lambda>rq. Inr (namespace rq)) valid_manifest =
     ([\<lparr>group = GROUP, version = VERSION, namespace = PStr ''tenant-a'', plural = PLURAL,
        body = valid_manifest\<rparr>],
      Inr (PStr ''tenant-a'')) \<and>
   \<not> has_identity nameless_manifest \<and>
   fst (create (\<lambda>rq. Inr (namespace rq)) nameless_manifest) = [] \<and>
   \<not> has_identity empty_name_manifest \<and>
   fst (create (\<lambda>rq. Inr (namespace rq)) empty_name_manifest) = []"
proof -
  have v: "has_identity valid_manifest"
    by (simp add: has_identity_def valid_manifest_def)
  have n: "\<not> has_identity nameless_manifest"
    by (simp add: has_identity_def nameless_manifest_def)
  have e: "\<not> has_identity empty_name_manifest"
    by (simp add: has_identity_def empty_name_manifest_def)
  have c: "create (\<lambda>rq. Inr (namespace rq)) valid_manifest =
     ([\<lparr>group = GROUP, version = VERSION, namespace = PStr ''tenant-a'', plural = PLURAL,
        body = valid_manifest\<rparr>],
      Inr (PStr ''tenant-a''))"
    by (simp add: create_def valid_manifest_def)
  from create_requires_identity[of nameless_manifest "\<lambda>rq. Inr (namespace rq)"] n
  have 1: "fst (create (\<lambda>rq. Inr (namespace rq)) nameless_manifest) = []" by auto
  from create_requires_identity[of empty_name_manifest "\<lambda>rq. Inr (namespace rq)"] e
  have 2: "fst (create (\<lambda>rq. Inr (namespace rq)) empty_name_manifest) = []" by auto
  from v n e c 1 2 show ?thesis by simp
qed

end
